theory Spec2Isabelle
  imports Main
begin

section \<open>Field-level permissions of ralph: \<open>ralph/lib/permissions/models.py\<close>\<close>

subsection \<open>String formatting\<close>

text \<open>
  The source builds every string with \<^verbatim>\<open>str.format\<close> on a literal template whose
  only replacement fields are the auto-numbered \<^verbatim>\<open>{}\<close>, always passing exactly as many
  arguments as the template has fields, all of them strings. \<open>str_format\<close> walks the
  template and puts the next argument in place of each \<^verbatim>\<open>{}\<close>; the arguments are
  inserted as they are and are not scanned for braces. (Python raises IndexError when the
  arguments run out; no template of the source reaches that, and the walk then copies the
  two characters.)
\<close>

fun str_format :: "string \<Rightarrow> string list \<Rightarrow> string" where
  "str_format [] args = []"
| "str_format [c] args = [c]"
| "str_format (c # d # t) args =
     (if c = CHR ''{'' \<and> d = CHR ''}'' \<and> args \<noteq> []
      then hd args @ str_format t (tl args)
      else c # str_format (d # t) args)"

text \<open>
  \<^verbatim>\<open>ugettext_lazy\<close> (imported as \<^verbatim>\<open>_\<close>) looks a message up in the active
  translation catalogue, which is not part of the module. It is modelled for the source
  language, where a message identifier is its own translation.
\<close>

definition ugettext_lazy :: "string \<Rightarrow> string" where
  "ugettext_lazy msgid = msgid"

subsection \<open>Data model\<close>

text \<open>A Django model field, as far as the module reads it.\<close>

record field =
  name :: string
  verbose_name :: string
  primary_key :: bool

text \<open>
  The value found under \<^verbatim>\<open>Permissions.blacklist\<close>: a set of field names, or an
  object that does not support the \<^verbatim>\<open>in\<close> operator (for example \<^verbatim>\<open>None\<close>).
\<close>

datatype py_value = StrSet "string set" | NotContainer

text \<open>The inner class \<^verbatim>\<open>Permissions\<close>; its attribute \<^verbatim>\<open>blacklist\<close> may be missing.\<close>

record Permissions_class =
  blacklist :: "py_value option"

text \<open>
  A model class as the metaclass sees it after \<^verbatim>\<open>ModelBase.__new__\<close>:
  \<^verbatim>\<open>_meta.model_name\<close>, \<^verbatim>\<open>_meta.app_label\<close>, \<^verbatim>\<open>_meta.fields\<close>,
  the list \<^verbatim>\<open>_meta.permissions\<close> and the inner class \<^verbatim>\<open>Permissions\<close>, which
  may be missing.
\<close>

record model_class =
  model_name :: string
  app_label :: string
  fields_meta :: "field list"
  permissions :: "(string \<times> string) list"
  Permissions :: "Permissions_class option"

text \<open>
  The exceptions that can leave the module: a missing attribute, \<^verbatim>\<open>in\<close> applied to
  a non-container, and whatever the user object's \<^verbatim>\<open>has_perm\<close> raises.
\<close>

datatype error = AttributeError | TypeError | StoreError string

text \<open>The user object: the module only calls \<^verbatim>\<open>user.has_perm(perm)\<close>.\<close>

record user =
  has_perm :: "string \<Rightarrow> error + bool"

subsection \<open>The module's functions\<close>

definition get_perm_key :: "string \<Rightarrow> string \<Rightarrow> string \<Rightarrow> string" where
  "get_perm_key action class_name field_name =
     str_format ''{}_{}_{}_field'' [action, class_name, field_name]"

text \<open>The attribute lookup \<^verbatim>\<open>cls.Permissions.blacklist\<close>.\<close>

definition get_blacklist :: "model_class \<Rightarrow> error + py_value" where
  "get_blacklist cls =
     (case Permissions cls of
        None \<Rightarrow> Inl AttributeError
      | Some p \<Rightarrow> (case blacklist p of None \<Rightarrow> Inl AttributeError | Some b \<Rightarrow> Inr b))"

text \<open>The test \<^verbatim>\<open>x in blacklist\<close>.\<close>

fun py_in :: "string \<Rightarrow> py_value \<Rightarrow> error + bool" where
  "py_in x (StrSet S) = Inr (x \<in> S)"
| "py_in x NotContainer = Inl TypeError"

text \<open>The two \<^verbatim>\<open>append\<close> calls of the metaclass for one field.\<close>

definition append_field_permissions :: "string \<Rightarrow> field \<Rightarrow> model_class \<Rightarrow> model_class" where
  "append_field_permissions class_name f cls =
     (let cls1 = cls\<lparr>permissions := permissions cls @
                   [(get_perm_key ''change'' class_name (name f),
                     str_format (ugettext_lazy ''Can change {} field'') [verbose_name f])]\<rparr>
      in cls1\<lparr>permissions := permissions cls1 @
                   [(get_perm_key ''view'' class_name (name f),
                     str_format (ugettext_lazy ''Can view {} field'') [verbose_name f])]\<rparr>)"

text \<open>
  The loop of \<^verbatim>\<open>PermissionByFieldBase.__new__\<close> over \<^verbatim>\<open>_meta.fields\<close>. The
  blacklist is looked up inside the loop, once per field, and \<^verbatim>\<open>and\<close> evaluates the
  membership test only for a field that is not the primary key.
\<close>

fun register_loop :: "string \<Rightarrow> field list \<Rightarrow> model_class \<Rightarrow> error + model_class" where
  "register_loop class_name [] cls = Inr cls"
| "register_loop class_name (f # fs) cls =
     (case get_blacklist cls of
        Inl e \<Rightarrow> Inl e
      | Inr bl \<Rightarrow>
          if \<not> primary_key f then
            (case py_in (name f) bl of
               Inl e \<Rightarrow> Inl e
             | Inr excluded \<Rightarrow>
                 if \<not> excluded
                 then register_loop class_name fs (append_field_permissions class_name f cls)
                 else register_loop class_name fs cls)
          else register_loop class_name fs cls)"

text \<open>
  \<^verbatim>\<open>PermissionByFieldBase.__new__\<close>, applied to the class that
  \<^verbatim>\<open>ModelBase.__new__\<close> has built.
\<close>

definition PermissionByFieldBase_new :: "model_class \<Rightarrow> error + model_class" where
  "PermissionByFieldBase_new new_class =
     (let class_name = model_name new_class
      in register_loop class_name (fields_meta new_class) new_class)"

text \<open>
  \<^verbatim>\<open>PermByFieldMixin.has_access_to_field\<close>; of \<^verbatim>\<open>self\<close> only the class-level
  \<^verbatim>\<open>_meta\<close> is read, so \<^verbatim>\<open>self\<close> is given by its class.
\<close>

definition has_access_to_field :: "model_class \<Rightarrow> string \<Rightarrow> user \<Rightarrow> string \<Rightarrow> error + bool" where
  "has_access_to_field self field_name usr action =
     (let perm_key = get_perm_key action (model_name self) field_name
      in has_perm usr (str_format ''{}.{}'' [app_label self, perm_key]))"

text \<open>
  The loop of \<^verbatim>\<open>PermByFieldMixin.allowed_fields\<close>; \<^verbatim>\<open>and\<close> evaluates its
  operands from left to right and stops at the first false one.
\<close>

fun allowed_loop ::
  "model_class \<Rightarrow> user \<Rightarrow> string \<Rightarrow> py_value \<Rightarrow> field list \<Rightarrow> string list \<Rightarrow> error + string list"
where
  "allowed_loop self usr action bl [] result = Inr result"
| "allowed_loop self usr action bl (f # fs) result =
     (if \<not> primary_key f then
        (case py_in (name f) bl of
           Inl e \<Rightarrow> Inl e
         | Inr excluded \<Rightarrow>
             if \<not> excluded then
               (case has_access_to_field self (name f) usr action of
                  Inl e \<Rightarrow> Inl e
                | Inr granted \<Rightarrow>
                    if granted
                    then allowed_loop self usr action bl fs (result @ [name f])
                    else allowed_loop self usr action bl fs result)
             else allowed_loop self usr action bl fs result)
      else allowed_loop self usr action bl fs result)"

text \<open>
  \<^verbatim>\<open>PermByFieldMixin.allowed_fields\<close>: here the blacklist is looked up once, before
  the loop.
\<close>

definition allowed_fields :: "model_class \<Rightarrow> user \<Rightarrow> string \<Rightarrow> error + string list" where
  "allowed_fields self usr action =
     (case get_blacklist self of
        Inl e \<Rightarrow> Inl e
      | Inr bl \<Rightarrow> allowed_loop self usr action bl (fields_meta self) [])"

subsection \<open>The specification's vocabulary\<close>

text \<open>
  The pairs that the specification's \<^verbatim>\<open>register_field_permissions\<close> emits for one
  field, and for a field list with an exclusion set: written from the specification's
  words, to be compared with the metaclass above.
\<close>

definition field_permission_pairs :: "string \<Rightarrow> field \<Rightarrow> (string \<times> string) list" where
  "field_permission_pairs type_name f =
     [(get_perm_key ''change'' type_name (name f), ''Can change '' @ verbose_name f @ '' field''),
      (get_perm_key ''view'' type_name (name f), ''Can view '' @ verbose_name f @ '' field'')]"

definition register_field_permissions ::
  "string \<Rightarrow> field list \<Rightarrow> string set \<Rightarrow> (string \<times> string) list" where
  "register_field_permissions type_name fs exclusion_set =
     concat (map (field_permission_pairs type_name)
               (filter (\<lambda>f. \<not> (primary_key f \<or> name f \<in> exclusion_set)) fs))"

text \<open>Running the registration step a second time on the class the first run returned.\<close>

definition register_twice :: "model_class \<Rightarrow> error + model_class" where
  "register_twice cls =
     (case PermissionByFieldBase_new cls of
        Inl e \<Rightarrow> Inl e
      | Inr cls1 \<Rightarrow> PermissionByFieldBase_new cls1)"

text \<open>A string is all lowercase when none of its characters is an upper-case letter.\<close>

definition is_upper :: "char \<Rightarrow> bool" where
  "is_upper c = (c \<in> set ''ABCDEFGHIJKLMNOPQRSTUVWXYZ'')"

definition all_lowercase :: "string \<Rightarrow> bool" where
  "all_lowercase s = list_all (\<lambda>c. \<not> is_upper c) s"

text \<open>
  An actor of the specification's scenarios: the identity store answers from the set of
  qualified identifiers granted to the actor, and does not raise.
\<close>

definition user_with_grants :: "string set \<Rightarrow> user" where
  "user_with_grants grants = \<lparr>has_perm = (\<lambda>perm. Inr (perm \<in> grants))\<rparr>"

text \<open>
  The record type of the specification's scenarios: \<^verbatim>\<open>document\<close> in the scope
  \<^verbatim>\<open>app\<close>, with the fields \<^verbatim>\<open>id\<close> (primary key), \<^verbatim>\<open>title\<close> and
  \<^verbatim>\<open>remarks\<close>, a given exclusion set and nothing registered yet.
\<close>

definition document :: "string set \<Rightarrow> model_class" where
  "document exclusion_set =
     \<lparr>model_name = ''document'', app_label = ''app'',
      fields_meta =
        [\<lparr>name = ''id'', verbose_name = ''ID'', primary_key = True\<rparr>,
         \<lparr>name = ''title'', verbose_name = ''Title'', primary_key = False\<rparr>,
         \<lparr>name = ''remarks'', verbose_name = ''Remarks'', primary_key = False\<rparr>],
      permissions = [],
      Permissions = Some \<lparr>blacklist = Some (StrSet exclusion_set)\<rparr>\<rparr>"

text \<open>
  The module's own abstract class \<^verbatim>\<open>PermByFieldMixin\<close>, which the metaclass also
  builds: it declares no field and no inner class \<^verbatim>\<open>Permissions\<close>.
\<close>

definition PermByFieldMixin :: model_class where
  "PermByFieldMixin =
     \<lparr>model_name = ''permbyfieldmixin'', app_label = ''permissions'',
      fields_meta = [], permissions = [], Permissions = None\<rparr>"

subsection \<open>Key derivation\<close>

lemma get_perm_key_eq:
  "get_perm_key action class_name field_name =
     action @ ''_'' @ class_name @ ''_'' @ field_name @ ''_field''"
  by (simp add: get_perm_key_def)

lemma qualified_name_eq: "str_format ''{}.{}'' [scope, ident] = scope @ ''.'' @ ident"
  by simp

lemma change_description_eq:
  "str_format (ugettext_lazy ''Can change {} field'') [label] = ''Can change '' @ label @ '' field''"
  by (simp add: ugettext_lazy_def)

lemma view_description_eq:
  "str_format (ugettext_lazy ''Can view {} field'') [label] = ''Can view '' @ label @ '' field''"
  by (simp add: ugettext_lazy_def)

subsection \<open>Lemmas about the registration loop\<close>

lemma get_blacklist_append [simp]:
  "get_blacklist (append_field_permissions cn f cls) = get_blacklist cls"
  by (simp add: get_blacklist_def append_field_permissions_def)

lemma append_field_permissions_eq:
  "append_field_permissions cn f cls =
     cls\<lparr>permissions := permissions cls @ field_permission_pairs cn f\<rparr>"
  by (simp add: append_field_permissions_def field_permission_pairs_def
      change_description_eq view_description_eq)

lemma get_blacklist_set:
  "Permissions cls = Some p \<Longrightarrow> blacklist p = Some b \<Longrightarrow> get_blacklist cls = Inr b"
  by (simp add: get_blacklist_def)

lemma get_blacklist_perms [simp]:
  "get_blacklist (cls\<lparr>permissions := ps\<rparr>) = get_blacklist cls"
  by (simp add: get_blacklist_def)

lemma register_loop_set:
  "get_blacklist cls = Inr (StrSet S) \<Longrightarrow>
   register_loop cn fs cls =
     Inr (cls\<lparr>permissions := permissions cls @ register_field_permissions cn fs S\<rparr>)"
proof (induction fs arbitrary: cls)
  case Nil
  then show ?case by (simp add: register_field_permissions_def)
next
  case (Cons f fs)
  show ?case
  proof (cases "primary_key f \<or> name f \<in> S")
    case True
    with Cons show ?thesis by (auto simp: register_field_permissions_def)
  next
    case False
    have "get_blacklist (append_field_permissions cn f cls) = Inr (StrSet S)"
      using Cons.prems by simp
    from Cons.IH [OF this] False Cons.prems show ?thesis
      by (simp add: register_field_permissions_def append_field_permissions_eq)
  qed
qed

lemma new_set:
  assumes "Permissions cls = Some p" and "blacklist p = Some (StrSet S)"
  shows "PermissionByFieldBase_new cls =
           Inr (cls\<lparr>permissions := permissions cls @
                  register_field_permissions (model_name cls) (fields_meta cls) S\<rparr>)"
  using register_loop_set [OF get_blacklist_set [OF assms]]
  by (simp add: PermissionByFieldBase_new_def)

subsection \<open>Registration\<close>

text \<open>
  C1. With an exclusion set configured, registration walks the fields in declaration order,
  skips every field that is the primary key or whose name is in the exclusion set, and for
  each remaining field appends exactly two pairs in this order: the change identifier with
  the description "Can change LABEL field", then the view identifier with the description
  "Can view LABEL field".
\<close>

theorem registration_emits_pairs:
  assumes "Permissions cls = Some p" and "blacklist p = Some (StrSet S)"
  shows "PermissionByFieldBase_new cls =
           Inr (cls\<lparr>permissions := permissions cls @
                  concat (map (\<lambda>f. [(get_perm_key ''change'' (model_name cls) (name f),
                                      ''Can change '' @ verbose_name f @ '' field''),
                                     (get_perm_key ''view'' (model_name cls) (name f),
                                      ''Can view '' @ verbose_name f @ '' field'')])
                            (filter (\<lambda>f. \<not> (primary_key f \<or> name f \<in> S)) (fields_meta cls)))\<rparr>)"
proof -
  have "(\<lambda>f. [(get_perm_key ''change'' (model_name cls) (name f),
               ''Can change '' @ verbose_name f @ '' field''),
              (get_perm_key ''view'' (model_name cls) (name f),
               ''Can view '' @ verbose_name f @ '' field'')]) =
        field_permission_pairs (model_name cls)"
    by (rule ext) (simp add: field_permission_pairs_def)
  then show ?thesis
    using register_loop_set [OF get_blacklist_set [OF assms], of "model_name cls" "fields_meta cls"]
    by (simp add: PermissionByFieldBase_new_def register_field_permissions_def)
qed

theorem registration_emits_pairs_witness:
  "PermissionByFieldBase_new (document {''remarks''}) =
     Inr ((document {''remarks''})\<lparr>permissions :=
            [(''change_document_title_field'', ''Can change Title field''),
             (''view_document_title_field'', ''Can view Title field'')]\<rparr>)"
  using registration_emits_pairs [of "document {''remarks''}" "\<lparr>blacklist = Some (StrSet {''remarks''})\<rparr>" "{''remarks''}"]
  by (simp add: document_def get_perm_key_eq)

subsection \<open>Key derivation: format and letter case\<close>

lemma all_lowercase_append [simp]:
  "all_lowercase (xs @ ys) = (all_lowercase xs \<and> all_lowercase ys)"
  by (simp add: all_lowercase_def)

lemma all_lowercase_underscore: "all_lowercase ''_''"
  by (simp add: all_lowercase_def is_upper_def)

lemma all_lowercase_suffix: "all_lowercase ''_field''"
  by (simp add: all_lowercase_def is_upper_def)

text \<open>
  C2, as stated, at a field name with a capital letter: the function changes nothing in its
  arguments, so the identifier keeps the capital and is not all lowercase.
\<close>

theorem get_perm_key_lowercase_counterexample:
  "\<not> all_lowercase (get_perm_key ''change'' ''document'' ''Title'')"
  by (simp add: get_perm_key_eq all_lowercase_def is_upper_def)

text \<open>
  C2, amended. For every action, class name and field name the result is exactly the three
  parts joined by single underscores, followed by the suffix \<^verbatim>\<open>_field\<close>, with no
  other transformation and in particular no case folding: it is all lowercase exactly when
  the three arguments are.
\<close>

theorem get_perm_key_format:
  "get_perm_key action class_name field_name =
     action @ ''_'' @ class_name @ ''_'' @ field_name @ ''_field'' \<and>
   (all_lowercase (get_perm_key action class_name field_name) \<longleftrightarrow>
      all_lowercase action \<and> all_lowercase class_name \<and> all_lowercase field_name)"
proof -
  have eq: "get_perm_key action class_name field_name =
     action @ ''_'' @ class_name @ ''_'' @ field_name @ ''_field''"
    by (simp add: get_perm_key_def)
  have "all_lowercase (action @ ''_'' @ class_name @ ''_'' @ field_name @ ''_field'') \<longleftrightarrow>
      all_lowercase action \<and> all_lowercase class_name \<and> all_lowercase field_name"
    using all_lowercase_underscore all_lowercase_suffix
    by (simp only: all_lowercase_append) simp
  with eq show ?thesis by simp
qed

theorem get_perm_key_format_witness:
  "get_perm_key ''change'' ''baseobject'' ''remarks'' = ''change_baseobject_remarks_field'' \<and>
   all_lowercase (get_perm_key ''change'' ''baseobject'' ''remarks'')"
  using get_perm_key_format [of "''change''" "''baseobject''" "''remarks''"]
  by (simp add: all_lowercase_def is_upper_def)

subsection \<open>The single-field check\<close>

text \<open>
  C4. The check derives the identifier from the action, the model name and the field name,
  qualifies it as \<^verbatim>\<open>app_label.identifier\<close>, passes that one string to the user's
  \<^verbatim>\<open>has_perm\<close> and returns what it answers (a boolean, or the exception it raised)
  unchanged; nothing else can fail.
\<close>

theorem has_access_to_field_delegates:
  "has_access_to_field self field_name usr action =
     has_perm usr (app_label self @ ''.'' @ get_perm_key action (model_name self) field_name)"
  by (simp add: has_access_to_field_def)


subsection \<open>Registration appends and changes nothing else\<close>

lemma register_loop_frame:
  "register_loop cn fs cls = Inr cls' \<Longrightarrow> \<exists>E. cls' = cls\<lparr>permissions := permissions cls @ E\<rparr>"
proof (induction fs arbitrary: cls)
  case Nil
  then have "cls' = cls\<lparr>permissions := permissions cls @ []\<rparr>" by simp
  then show ?case by blast
next
  case (Cons f fs)
  from Cons.prems obtain bl where bl: "get_blacklist cls = Inr bl"
    by (cases "get_blacklist cls") auto
  consider (skip) "register_loop cn fs cls = Inr cls'"
    | (emit) "register_loop cn fs (append_field_permissions cn f cls) = Inr cls'"
    using Cons.prems bl by (auto split: if_splits sum.splits)
  then show ?case
  proof cases
    case skip
    then show ?thesis by (rule Cons.IH)
  next
    case emit
    from Cons.IH [OF emit] obtain E where
      "cls' = (append_field_permissions cn f cls)
                \<lparr>permissions := permissions (append_field_permissions cn f cls) @ E\<rparr>" ..
    then have "cls' = cls\<lparr>permissions := permissions cls @ (field_permission_pairs cn f @ E)\<rparr>"
      by (simp add: append_field_permissions_eq)
    then show ?thesis by blast
  qed
qed

text \<open>
  C9. When registration returns, the class it returns is the given class with new pairs
  appended to its permission list: the entries that were there stay in place, the new
  pairs follow them, and the fields, the exclusion set, the model name and the application
  label are unchanged.
\<close>

theorem registration_frame:
  assumes "PermissionByFieldBase_new cls = Inr cls'"
  shows "\<exists>E. permissions cls' = permissions cls @ E \<and>
             fields_meta cls' = fields_meta cls \<and>
             Permissions cls' = Permissions cls \<and>
             model_name cls' = model_name cls \<and>
             app_label cls' = app_label cls \<and>
             cls' = cls\<lparr>permissions := permissions cls @ E\<rparr>"
proof -
  from assms have "register_loop (model_name cls) (fields_meta cls) cls = Inr cls'"
    by (simp add: PermissionByFieldBase_new_def)
  then obtain E where "cls' = cls\<lparr>permissions := permissions cls @ E\<rparr>"
    using register_loop_frame by blast
  then show ?thesis by auto
qed

theorem registration_frame_witness:
  "PermissionByFieldBase_new (document {''remarks''}) =
     Inr ((document {''remarks''})\<lparr>permissions :=
            [(''change_document_title_field'', ''Can change Title field''),
             (''view_document_title_field'', ''Can view Title field'')]\<rparr>) \<and>
   (\<exists>E. (document {''remarks''})\<lparr>permissions :=
            [(''change_document_title_field'', ''Can change Title field''),
             (''view_document_title_field'', ''Can view Title field'')]\<rparr> =
         (document {''remarks''})\<lparr>permissions := permissions (document {''remarks''}) @ E\<rparr>)"
proof -
  have r: "PermissionByFieldBase_new (document {''remarks''}) =
     Inr ((document {''remarks''})\<lparr>permissions :=
            [(''change_document_title_field'', ''Can change Title field''),
             (''view_document_title_field'', ''Can view Title field'')]\<rparr>)"
    by (simp add: new_set [of _ "\<lparr>blacklist = Some (StrSet {''remarks''})\<rparr>" "{''remarks''}"]
      document_def register_field_permissions_def field_permission_pairs_def get_perm_key_eq)
  from registration_frame [OF r] r show ?thesis by blast
qed

subsection \<open>Running registration twice\<close>

lemma register_field_permissions_empty:
  "register_field_permissions cn fs S = [] \<longleftrightarrow> (\<forall>f\<in>set fs. primary_key f \<or> name f \<in> S)"
  by (auto simp: register_field_permissions_def field_permission_pairs_def filter_empty_conv)

text \<open>
  C6, as stated, on the scenario type with an empty exclusion set: the second run appends
  the four pairs again, so two runs do not leave what one run leaves.
\<close>

theorem registration_twice_counterexample:
  "register_twice (document {}) \<noteq> PermissionByFieldBase_new (document {})"
  by (simp add: register_twice_def
      new_set [of _ "\<lparr>blacklist = Some (StrSet {})\<rparr>" "{}"]
      document_def register_field_permissions_def field_permission_pairs_def)

text \<open>
  C6, amended. With an exclusion set configured, two runs of registration append the
  emitted pairs twice, one copy after the other; the outcome equals that of a single run
  exactly when no field is eligible, that is when every field is the primary key or
  excluded.
\<close>

theorem registration_twice_appends_twice:
  assumes "Permissions cls = Some p" and "blacklist p = Some (StrSet S)"
  shows "register_twice cls =
           Inr (cls\<lparr>permissions := permissions cls @
                  register_field_permissions (model_name cls) (fields_meta cls) S @
                  register_field_permissions (model_name cls) (fields_meta cls) S\<rparr>) \<and>
         (register_twice cls = PermissionByFieldBase_new cls \<longleftrightarrow>
            (\<forall>f\<in>set (fields_meta cls). primary_key f \<or> name f \<in> S))"
proof -
  let ?E = "register_field_permissions (model_name cls) (fields_meta cls) S"
  let ?cls1 = "cls\<lparr>permissions := permissions cls @ ?E\<rparr>"
  have one: "PermissionByFieldBase_new cls = Inr ?cls1"
    using assms by (rule new_set)
  have "Permissions ?cls1 = Some p" using assms(1) by simp
  from new_set [OF this assms(2)]
  have two: "PermissionByFieldBase_new ?cls1 = Inr (cls\<lparr>permissions := permissions cls @ ?E @ ?E\<rparr>)"
    by simp
  from one two have twice:
    "register_twice cls = Inr (cls\<lparr>permissions := permissions cls @ ?E @ ?E\<rparr>)"
    by (simp add: register_twice_def)
  have "(cls\<lparr>permissions := permissions cls @ ?E @ ?E\<rparr> = ?cls1) \<longleftrightarrow> ?E = []"
  proof
    assume "cls\<lparr>permissions := permissions cls @ ?E @ ?E\<rparr> = ?cls1"
    then have "permissions (cls\<lparr>permissions := permissions cls @ ?E @ ?E\<rparr>) = permissions ?cls1"
      by (rule arg_cong)
    then show "?E = []" by simp
  next
    assume "?E = []"
    then show "cls\<lparr>permissions := permissions cls @ ?E @ ?E\<rparr> = ?cls1" by simp
  qed
  with one twice register_field_permissions_empty [of "model_name cls" "fields_meta cls" S]
  show ?thesis by simp
qed

theorem registration_twice_appends_twice_witness:
  "register_twice (document {''remarks''}) =
     Inr ((document {''remarks''})\<lparr>permissions :=
            [(''change_document_title_field'', ''Can change Title field''),
             (''view_document_title_field'', ''Can view Title field''),
             (''change_document_title_field'', ''Can change Title field''),
             (''view_document_title_field'', ''Can view Title field'')]\<rparr>) \<and>
   register_twice (document {''remarks''}) \<noteq> PermissionByFieldBase_new (document {''remarks''})"
proof -
  have p: "Permissions (document {''remarks''}) = Some \<lparr>blacklist = Some (StrSet {''remarks''})\<rparr>"
    by (simp add: document_def)
  have b: "blacklist \<lparr>blacklist = Some (StrSet {''remarks''})\<rparr> = Some (StrSet {''remarks''})"
    by simp
  have e: "register_field_permissions (model_name (document {''remarks''}))
             (fields_meta (document {''remarks''})) {''remarks''} =
           [(''change_document_title_field'', ''Can change Title field''),
            (''view_document_title_field'', ''Can view Title field'')]"
    by (simp add: document_def register_field_permissions_def field_permission_pairs_def
        get_perm_key_eq)
  have f: "\<not> (\<forall>f\<in>set (fields_meta (document {''remarks''})). primary_key f \<or> name f \<in> {''remarks''})"
    by (simp add: document_def)
  have q: "permissions (document {''remarks''}) = []"
    by (simp add: document_def)
  note t = registration_twice_appends_twice [OF p b, unfolded e q]
  from t have "register_twice (document {''remarks''}) =
     Inr ((document {''remarks''})\<lparr>permissions :=
            [(''change_document_title_field'', ''Can change Title field''),
             (''view_document_title_field'', ''Can view Title field''),
             (''change_document_title_field'', ''Can change Title field''),
             (''view_document_title_field'', ''Can view Title field'')]\<rparr>)"
    by simp
  moreover from t f
  have "register_twice (document {''remarks''}) \<noteq> PermissionByFieldBase_new (document {''remarks''})"
    by blast
  ultimately show ?thesis by (rule conjI)
qed

subsection \<open>Registration without a usable exclusion set\<close>

lemma register_loop_absent:
  "get_blacklist cls = Inl e \<Longrightarrow>
   register_loop cn fs cls = (if fs = [] then Inr cls else Inl e)"
  by (cases fs) simp_all

lemma register_loop_not_container:
  "get_blacklist cls = Inr NotContainer \<Longrightarrow>
   register_loop cn fs cls = (if \<forall>f\<in>set fs. primary_key f then Inr cls else Inl TypeError)"
  by (induction fs) simp_all

text \<open>
  C7, as stated, on the module's own abstract class, which has no inner class
  \<^verbatim>\<open>Permissions\<close> and no field: registration does not fail, it returns the class.
\<close>

theorem registration_unconfigured_counterexample:
  "Permissions PermByFieldMixin = None \<and>
   PermissionByFieldBase_new PermByFieldMixin = Inr PermByFieldMixin"
  by (simp add: PermByFieldMixin_def PermissionByFieldBase_new_def)

text \<open>
  C7, amended. When the inner class \<^verbatim>\<open>Permissions\<close> or its attribute
  \<^verbatim>\<open>blacklist\<close> is absent, registration of a type that has at least one field fails
  with AttributeError, and registration of a type without fields returns the type
  unchanged. When \<^verbatim>\<open>blacklist\<close> is not a container, registration fails with TypeError
  if some field is not the primary key, and returns the type unchanged otherwise.
\<close>

theorem registration_unconfigured:
  "(Permissions cls = None \<or> (\<exists>p. Permissions cls = Some p \<and> blacklist p = None) \<longrightarrow>
      PermissionByFieldBase_new cls =
        (if fields_meta cls = [] then Inr cls else Inl AttributeError)) \<and>
   ((\<exists>p. Permissions cls = Some p \<and> blacklist p = Some NotContainer) \<longrightarrow>
      PermissionByFieldBase_new cls =
        (if \<forall>f\<in>set (fields_meta cls). primary_key f then Inr cls else Inl TypeError))"
proof (intro conjI impI)
  assume "Permissions cls = None \<or> (\<exists>p. Permissions cls = Some p \<and> blacklist p = None)"
  then have "get_blacklist cls = Inl AttributeError"
    by (auto simp: get_blacklist_def)
  then show "PermissionByFieldBase_new cls =
        (if fields_meta cls = [] then Inr cls else Inl AttributeError)"
    by (simp add: PermissionByFieldBase_new_def register_loop_absent)
next
  assume "\<exists>p. Permissions cls = Some p \<and> blacklist p = Some NotContainer"
  then have "get_blacklist cls = Inr NotContainer"
    by (auto simp: get_blacklist_def)
  then show "PermissionByFieldBase_new cls =
        (if \<forall>f\<in>set (fields_meta cls). primary_key f then Inr cls else Inl TypeError)"
    by (simp add: PermissionByFieldBase_new_def register_loop_not_container)
qed

theorem registration_unconfigured_witness:
  "PermissionByFieldBase_new ((document {})\<lparr>Permissions := None\<rparr>) = Inl AttributeError \<and>
   PermissionByFieldBase_new ((document {})\<lparr>Permissions := Some \<lparr>blacklist = Some NotContainer\<rparr>\<rparr>)
     = Inl TypeError"
proof -
  have "PermissionByFieldBase_new ((document {})\<lparr>Permissions := None\<rparr>) = Inl AttributeError"
    using registration_unconfigured [of "(document {})\<lparr>Permissions := None\<rparr>"]
    by (simp add: document_def)
  moreover
  have "PermissionByFieldBase_new
          ((document {})\<lparr>Permissions := Some \<lparr>blacklist = Some NotContainer\<rparr>\<rparr>) = Inl TypeError"
    using registration_unconfigured
      [of "(document {})\<lparr>Permissions := Some \<lparr>blacklist = Some NotContainer\<rparr>\<rparr>"]
    by (simp add: document_def)
  ultimately show ?thesis by (rule conjI)
qed

subsection \<open>Which identifiers registration emits\<close>

lemma get_perm_key_inj:
  assumes "a = ''change'' \<or> a = ''view''" and "a' = ''change'' \<or> a' = ''view''"
    and "get_perm_key a cn n = get_perm_key a' cn n'"
  shows "a = a' \<and> n = n'"
  using assms by (auto simp: get_perm_key_eq)

lemma fst_register_field_permissions:
  "fst ` set (register_field_permissions cn fs S) =
     (\<Union>f \<in> {f \<in> set fs. \<not> primary_key f \<and> name f \<notin> S}.
        {get_perm_key ''change'' cn (name f), get_perm_key ''view'' cn (name f)})"
  by (induction fs) (auto simp: register_field_permissions_def field_permission_pairs_def)

lemma key_emitted_iff:
  assumes "a = ''change'' \<or> a = ''view''"
  shows "get_perm_key a cn n \<in> fst ` set (register_field_permissions cn fs S) \<longleftrightarrow>
           (\<exists>f\<in>set fs. name f = n \<and> \<not> primary_key f \<and> n \<notin> S)"
proof
  assume "get_perm_key a cn n \<in> fst ` set (register_field_permissions cn fs S)"
  then obtain f a' where f: "f \<in> set fs" "\<not> primary_key f" "name f \<notin> S"
    and a': "a' = ''change'' \<or> a' = ''view''"
    and eq: "get_perm_key a cn n = get_perm_key a' cn (name f)"
    unfolding fst_register_field_permissions by blast
  from get_perm_key_inj [OF assms a' eq] have "n = name f" by simp
  with f show "\<exists>f\<in>set fs. name f = n \<and> \<not> primary_key f \<and> n \<notin> S" by blast
next
  assume "\<exists>f\<in>set fs. name f = n \<and> \<not> primary_key f \<and> n \<notin> S"
  then obtain f where "f \<in> set fs" "name f = n" "\<not> primary_key f" "name f \<notin> S" by blast
  with assms show "get_perm_key a cn n \<in> fst ` set (register_field_permissions cn fs S)"
    unfolding fst_register_field_permissions by blast
qed

lemma distinct_names_unique:
  "distinct (map name fs) \<Longrightarrow> f \<in> set fs \<Longrightarrow> g \<in> set fs \<Longrightarrow> name f = name g \<Longrightarrow> f = g"
  by (meson distinct_map inj_onD)

text \<open>
  C5. After registration with an exclusion set configured, the pairs that registration
  appended hold no change or view identifier of a field named in the exclusion set, and,
  field names being unique within the type, none of a primary-key field, whatever the
  exclusion set contains; so the registered list holds such an identifier only if it was
  declared there before registration.
\<close>

theorem registry_skips_excluded_and_primary_key:
  assumes "Permissions cls = Some p" and "blacklist p = Some (StrSet S)"
    and "PermissionByFieldBase_new cls = Inr cls'"
    and "action = ''change'' \<or> action = ''view''"
    and "n \<in> S \<or>
         (distinct (map name (fields_meta cls)) \<and>
          (\<exists>f\<in>set (fields_meta cls). name f = n \<and> primary_key f))"
  shows "(\<exists>E. permissions cls' = permissions cls @ E \<and>
              get_perm_key action (model_name cls) n \<notin> fst ` set E) \<and>
         (get_perm_key action (model_name cls) n \<notin> fst ` set (permissions cls) \<longrightarrow>
          get_perm_key action (model_name cls) n \<notin> fst ` set (permissions cls'))"
proof -
  let ?E = "register_field_permissions (model_name cls) (fields_meta cls) S"
  let ?k = "get_perm_key action (model_name cls) n"
  from new_set [OF assms(1,2)] assms(3)
  have cls': "cls' = cls\<lparr>permissions := permissions cls @ ?E\<rparr>" by simp
  have "\<not> (\<exists>f\<in>set (fields_meta cls). name f = n \<and> \<not> primary_key f \<and> n \<notin> S)"
    using assms(5) distinct_names_unique by blast
  then have "?k \<notin> fst ` set ?E"
    using key_emitted_iff [OF assms(4)] by simp
  with cls' show ?thesis by (auto simp: image_Un)
qed

theorem registry_skips_excluded_and_primary_key_witness:
  "PermissionByFieldBase_new (document {''remarks''}) =
     Inr ((document {''remarks''})\<lparr>permissions :=
            [(''change_document_title_field'', ''Can change Title field''),
             (''view_document_title_field'', ''Can view Title field'')]\<rparr>) \<and>
   ''change_document_remarks_field'' \<notin>
     fst ` set (permissions ((document {''remarks''})\<lparr>permissions :=
            [(''change_document_title_field'', ''Can change Title field''),
             (''view_document_title_field'', ''Can view Title field'')]\<rparr>)) \<and>
   ''view_document_id_field'' \<notin>
     fst ` set (permissions ((document {''remarks''})\<lparr>permissions :=
            [(''change_document_title_field'', ''Can change Title field''),
             (''view_document_title_field'', ''Can view Title field'')]\<rparr>))"
proof -
  let ?d = "document {''remarks''}"
  let ?d' = "?d\<lparr>permissions :=
            [(''change_document_title_field'', ''Can change Title field''),
             (''view_document_title_field'', ''Can view Title field'')]\<rparr>"
  have p: "Permissions ?d = Some \<lparr>blacklist = Some (StrSet {''remarks''})\<rparr>"
    by (simp add: document_def)
  have b: "blacklist \<lparr>blacklist = Some (StrSet {''remarks''})\<rparr> = Some (StrSet {''remarks''})"
    by simp
  have r: "PermissionByFieldBase_new ?d = Inr ?d'"
    by (simp add: new_set [OF p b]) 
       (simp add: document_def register_field_permissions_def field_permission_pairs_def
          get_perm_key_eq)
  have e: "permissions ?d = []" by (simp add: document_def)
  have "get_perm_key ''change'' (model_name ?d) ''remarks'' \<notin> fst ` set (permissions ?d')"
    using registry_skips_excluded_and_primary_key [OF p b r, of "''change''" "''remarks''"] e
    by simp
  moreover
  have "distinct (map name (fields_meta ?d)) \<and>
        (\<exists>f\<in>set (fields_meta ?d). name f = ''id'' \<and> primary_key f)"
    by (simp add: document_def)
  then have "get_perm_key ''view'' (model_name ?d) ''id'' \<notin> fst ` set (permissions ?d')"
    using registry_skips_excluded_and_primary_key [OF p b r, of "''view''" "''id''"] e
    by simp
  ultimately show ?thesis
    using r by (simp add: document_def get_perm_key_eq)
qed

subsection \<open>The field filter\<close>

lemma allowed_loop_set:
  assumes "\<forall>f\<in>set fs. \<not> primary_key f \<and> name f \<notin> S \<longrightarrow>
             (\<exists>b. has_access_to_field self (name f) usr action = Inr b)"
  shows "allowed_loop self usr action (StrSet S) fs acc =
           Inr (acc @ map name (filter (\<lambda>f. \<not> primary_key f \<and> name f \<notin> S \<and>
                   has_access_to_field self (name f) usr action = Inr True) fs))"
  using assms
proof (induction fs arbitrary: acc)
  case Nil
  show ?case by simp
next
  case (Cons f fs)
  then have IH: "\<And>acc. allowed_loop self usr action (StrSet S) fs acc =
           Inr (acc @ map name (filter (\<lambda>f. \<not> primary_key f \<and> name f \<notin> S \<and>
                   has_access_to_field self (name f) usr action = Inr True) fs))"
    by simp
  show ?case
  proof (cases "\<not> primary_key f \<and> name f \<notin> S")
    case False
    then show ?thesis by (auto simp: IH)
  next
    case True
    with Cons.prems obtain b where "has_access_to_field self (name f) usr action = Inr b"
      by auto
    with True show ?thesis by (simp add: IH)
  qed
qed

lemma allowed_loop_sound:
  "allowed_loop self usr action bl fs acc = Inr r \<Longrightarrow> n \<in> set r \<Longrightarrow> n \<notin> set acc \<Longrightarrow>
   (\<exists>S. bl = StrSet S \<and> n \<notin> S) \<and> (\<exists>f\<in>set fs. name f = n \<and> \<not> primary_key f)"
proof (induction fs arbitrary: acc)
  case Nil
  then show ?case by simp
next
  case (Cons f fs)
  consider (skip) "allowed_loop self usr action bl fs acc = Inr r"
    | (take) "\<not> primary_key f" "py_in (name f) bl = Inr False"
        "allowed_loop self usr action bl fs (acc @ [name f]) = Inr r"
    using Cons.prems(1) by (auto split: if_splits sum.splits)
  then show ?case
  proof cases
    case skip
    from Cons.IH [OF skip Cons.prems(2,3)] show ?thesis by auto
  next
    case take
    from take(2) obtain S where S: "bl = StrSet S" "name f \<notin> S"
      by (cases bl) auto
    show ?thesis
    proof (cases "n = name f")
      case True
      with S take(1) show ?thesis by auto
    next
      case False
      with Cons.prems(3) have "n \<notin> set (acc @ [name f])" by simp
      from Cons.IH [OF take(3) Cons.prems(2) this] show ?thesis by auto
    qed
  qed
qed

lemma has_access_with_grants:
  "has_access_to_field self field_name (user_with_grants grants) action =
     Inr (app_label self @ ''.'' @ get_perm_key action (model_name self) field_name \<in> grants)"
  by (simp add: has_access_to_field_def user_with_grants_def)

text \<open>
  C3. With an exclusion set configured and a store that answers (does not raise) for the
  eligible fields, \<^verbatim>\<open>allowed_fields\<close> returns exactly the names of the fields, in
  declaration order, that are not the primary key, are not named in the exclusion set and
  for which \<^verbatim>\<open>has_access_to_field\<close> returns true; the list may be empty, and it has no
  duplicates since field names are unique within a type.
\<close>

theorem allowed_fields_filter:
  assumes "Permissions self = Some p" and "blacklist p = Some (StrSet S)"
    and "\<forall>f\<in>set (fields_meta self). \<not> primary_key f \<and> name f \<notin> S \<longrightarrow>
           (\<exists>b. has_access_to_field self (name f) usr action = Inr b)"
  shows "allowed_fields self usr action =
           Inr (map name (filter (\<lambda>f. \<not> primary_key f \<and> name f \<notin> S \<and>
                  has_access_to_field self (name f) usr action = Inr True) (fields_meta self))) \<and>
         (distinct (map name (fields_meta self)) \<longrightarrow>
            distinct (map name (filter (\<lambda>f. \<not> primary_key f \<and> name f \<notin> S \<and>
                  has_access_to_field self (name f) usr action = Inr True) (fields_meta self))))"
  using allowed_loop_set [OF assms(3), of "[]"] get_blacklist_set [OF assms(1,2)]
  by (simp add: allowed_fields_def distinct_map_filter)

theorem allowed_fields_filter_witness:
  "allowed_fields (document {''remarks''})
     (user_with_grants {''app.view_document_id_field'', ''app.view_document_title_field'',
                        ''app.view_document_remarks_field''}) ''view'' = Inr [''title'']"
proof -
  let ?d = "document {''remarks''}"
  let ?u = "user_with_grants {''app.view_document_id_field'', ''app.view_document_title_field'',
                        ''app.view_document_remarks_field''}"
  have p: "Permissions ?d = Some \<lparr>blacklist = Some (StrSet {''remarks''})\<rparr>"
    by (simp add: document_def)
  have b: "blacklist \<lparr>blacklist = Some (StrSet {''remarks''})\<rparr> = Some (StrSet {''remarks''})"
    by simp
  have ok: "\<forall>f\<in>set (fields_meta ?d). \<not> primary_key f \<and> name f \<notin> {''remarks''} \<longrightarrow>
           (\<exists>b. has_access_to_field ?d (name f) ?u ''view'' = Inr b)"
    by (simp add: has_access_with_grants)
  from allowed_fields_filter [OF p b ok] show ?thesis
    by (simp add: document_def has_access_with_grants get_perm_key_eq)
qed

subsection \<open>Scenario: one grant\<close>

lemma filter_unique_name:
  "distinct (map name fs) \<Longrightarrow> f \<in> set fs \<Longrightarrow>
   map name (filter (\<lambda>g. name g = name f) fs) = [name f]"
proof (induction fs)
  case Nil
  then show ?case by simp
next
  case (Cons g fs)
  show ?case
  proof (cases "name g = name f")
    case True
    from Cons.prems(1) True have "name f \<notin> name ` set fs" by simp
    then have "\<forall>h\<in>set fs. name h \<noteq> name f" by (auto simp: image_iff)
    then have "filter (\<lambda>g. name g = name f) fs = []" by (simp add: filter_empty_conv)
    with True show ?thesis by simp
  next
    case False
    with Cons show ?thesis by auto
  qed
qed

text \<open>
  C8. For a type named \<^verbatim>\<open>document\<close> in the scope \<^verbatim>\<open>app\<close> and an actor whose only
  grant is \<^verbatim>\<open>app.change_document_title_field\<close>: the check of \<^verbatim>\<open>title\<close> returns true
  for \<^verbatim>\<open>change\<close> and false for \<^verbatim>\<open>view\<close>, and, \<^verbatim>\<open>title\<close> being a field of the type
  that is neither the primary key nor excluded, \<^verbatim>\<open>allowed_fields\<close> for \<^verbatim>\<open>change\<close>
  returns exactly the list holding \<^verbatim>\<open>title\<close>.
\<close>

theorem scenario_single_grant:
  assumes "model_name doc = ''document''" and "app_label doc = ''app''"
    and "actor = user_with_grants {''app.change_document_title_field''}"
  shows "has_access_to_field doc ''title'' actor ''change'' = Inr True \<and>
         has_access_to_field doc ''title'' actor ''view'' = Inr False \<and>
         (Permissions doc = Some p \<and> blacklist p = Some (StrSet S) \<and> ''title'' \<notin> S \<and>
          distinct (map name (fields_meta doc)) \<and>
          (\<exists>f\<in>set (fields_meta doc). name f = ''title'' \<and> \<not> primary_key f) \<longrightarrow>
            allowed_fields doc actor ''change'' = Inr [''title''])"
proof (intro conjI impI)
  show "has_access_to_field doc ''title'' actor ''change'' = Inr True"
    by (simp add: assms has_access_with_grants get_perm_key_eq)
  show "has_access_to_field doc ''title'' actor ''view'' = Inr False"
    by (simp add: assms has_access_with_grants get_perm_key_eq)
next
  assume h: "Permissions doc = Some p \<and> blacklist p = Some (StrSet S) \<and> ''title'' \<notin> S \<and>
          distinct (map name (fields_meta doc)) \<and>
          (\<exists>f\<in>set (fields_meta doc). name f = ''title'' \<and> \<not> primary_key f)"
  then obtain f where f: "f \<in> set (fields_meta doc)" "name f = ''title''" "\<not> primary_key f"
    by blast
  from h have d: "distinct (map name (fields_meta doc))" by simp
  have acc: "\<And>n. has_access_to_field doc n actor ''change'' = Inr (n = ''title'')"
    by (simp add: assms has_access_with_grants get_perm_key_eq)
  have bl: "get_blacklist doc = Inr (StrSet S)"
    using h by (simp add: get_blacklist_def)
  have "\<And>g. g \<in> set (fields_meta doc) \<Longrightarrow>
          (\<not> primary_key g \<and> name g \<notin> S \<and> name g = ''title'') = (name g = name f)"
    using f h distinct_names_unique [OF d] by metis
  then have "filter (\<lambda>g. \<not> primary_key g \<and> name g \<notin> S \<and> name g = ''title'') (fields_meta doc) =
        filter (\<lambda>g. name g = name f) (fields_meta doc)"
    by (simp cong: filter_cong)
  then have "map name (filter (\<lambda>g. \<not> primary_key g \<and> name g \<notin> S \<and> name g = ''title'')
               (fields_meta doc)) = [''title'']"
    using filter_unique_name [OF d f(1)] f(2) by simp
  then show "allowed_fields doc actor ''change'' = Inr [''title'']"
    using allowed_loop_set [of "fields_meta doc" S doc actor "''change''" "[]"] bl
    by (simp add: allowed_fields_def acc)
qed

theorem scenario_single_grant_witness:
  "has_access_to_field (document {}) ''title''
     (user_with_grants {''app.change_document_title_field''}) ''change'' = Inr True \<and>
   has_access_to_field (document {}) ''title''
     (user_with_grants {''app.change_document_title_field''}) ''view'' = Inr False \<and>
   allowed_fields (document {})
     (user_with_grants {''app.change_document_title_field''}) ''change'' = Inr [''title'']"
  using scenario_single_grant [of "document {}" "user_with_grants {''app.change_document_title_field''}"
      "\<lparr>blacklist = Some (StrSet {})\<rparr>" "{}"]
  by (simp add: document_def)

subsection \<open>What the single-field check depends on\<close>

text \<open>
  C10. The single-field check reads only the action, the model name, the application label,
  the field name and the user's \<^verbatim>\<open>has_perm\<close>: two calls that agree on these give the same
  result, whatever the field lists and exclusion sets of the two classes are and whether or
  not the name is a field at all. So the check is true for any name whose qualified
  identifier the store grants, also for a primary-key or excluded field, while every name
  that \<^verbatim>\<open>allowed_fields\<close> returns is outside the exclusion set and is the name of a field
  that is not the primary key.
\<close>

theorem has_access_ignores_field_metadata:
  "(model_name c1 = model_name c2 \<and> app_label c1 = app_label c2 \<and> has_perm u1 = has_perm u2 \<longrightarrow>
      has_access_to_field c1 n u1 a = has_access_to_field c2 n u2 a) \<and>
   (has_perm u1 (app_label c1 @ ''.'' @ get_perm_key a (model_name c1) n) = Inr True \<longrightarrow>
      has_access_to_field c1 n u1 a = Inr True) \<and>
   (allowed_fields c1 u1 a = Inr r \<and> n \<in> set r \<longrightarrow>
      (\<exists>S. get_blacklist c1 = Inr (StrSet S) \<and> n \<notin> S) \<and>
      (\<exists>f\<in>set (fields_meta c1). name f = n \<and> \<not> primary_key f))"
proof (intro conjI impI)
  assume "model_name c1 = model_name c2 \<and> app_label c1 = app_label c2 \<and> has_perm u1 = has_perm u2"
  then show "has_access_to_field c1 n u1 a = has_access_to_field c2 n u2 a"
    by (simp add: has_access_to_field_def)
next
  assume "has_perm u1 (app_label c1 @ ''.'' @ get_perm_key a (model_name c1) n) = Inr True"
  then show "has_access_to_field c1 n u1 a = Inr True"
    by (simp add: has_access_to_field_def)
next
  assume h: "allowed_fields c1 u1 a = Inr r \<and> n \<in> set r"
  then obtain bl where bl: "get_blacklist c1 = Inr bl"
    and loop: "allowed_loop c1 u1 a bl (fields_meta c1) [] = Inr r"
    by (cases "get_blacklist c1") (auto simp: allowed_fields_def)
  from allowed_loop_sound [OF loop, of n] h bl
  show "\<exists>S. get_blacklist c1 = Inr (StrSet S) \<and> n \<notin> S"
    and "\<exists>f\<in>set (fields_meta c1). name f = n \<and> \<not> primary_key f"
    by auto
qed

theorem has_access_ignores_field_metadata_witness:
  "has_access_to_field (document {''remarks''}) ''id''
     (user_with_grants {''app.change_document_id_field'', ''app.change_document_remarks_field''})
     ''change'' = Inr True \<and>
   has_access_to_field (document {''remarks''}) ''remarks''
     (user_with_grants {''app.change_document_id_field'', ''app.change_document_remarks_field''})
     ''change'' = Inr True \<and>
   has_access_to_field PermByFieldMixin ''id''
     (user_with_grants {''permissions.change_permbyfieldmixin_id_field''}) ''change'' = Inr True \<and>
   allowed_fields (document {''remarks''})
     (user_with_grants {''app.change_document_id_field'', ''app.change_document_remarks_field''})
     ''change'' = Inr []"
proof -
  let ?d = "document {''remarks''}"
  let ?u = "user_with_grants {''app.change_document_id_field'', ''app.change_document_remarks_field''}"
  let ?v = "user_with_grants {''permissions.change_permbyfieldmixin_id_field''}"
  have 1: "has_access_to_field ?d ''id'' ?u ''change'' = Inr True"
    using has_access_ignores_field_metadata [of ?d ?d ?u ?u "''id''" "''change''"]
    by (simp add: document_def user_with_grants_def get_perm_key_eq)
  have 2: "has_access_to_field ?d ''remarks'' ?u ''change'' = Inr True"
    using has_access_ignores_field_metadata [of ?d ?d ?u ?u "''remarks''" "''change''"]
    by (simp add: document_def user_with_grants_def get_perm_key_eq)
  have 3: "has_access_to_field PermByFieldMixin ''id'' ?v ''change'' = Inr True"
    using has_access_ignores_field_metadata
      [of PermByFieldMixin PermByFieldMixin ?v ?v "''id''" "''change''"]
    by (simp add: PermByFieldMixin_def user_with_grants_def get_perm_key_eq)
  have 4: "allowed_fields ?d ?u ''change'' = Inr []"
    by (simp add: allowed_fields_def get_blacklist_def document_def has_access_with_grants
        get_perm_key_eq)
  from 1 2 3 4 show ?thesis by simp
qed

end
